theory Spec2Isabelle
  imports Main "HOL-Library.List_Lexorder"
begin

section \<open>Strings, values and the host file system\<close>

text \<open>
  A Python \<open>str\<close> is a sequence of Unicode code points, and \<open>sorted\<close> compares two
  of them code point by code point.  A string is therefore a list of code points; the
  order on lists is the lexicographic one.  \<open>u\<close> reads an ASCII literal.
\<close>

type_synonym str = "nat list"

definition u :: "string \<Rightarrow> str" where
  "u s = map of_char s"

text \<open>The non-ASCII characters of the source: U+25C0, U+251C, U+2500, U+2514, U+2502,
  U+2705.\<close>

definition tri :: nat where "tri = 9664"
definition tee :: nat where "tee = 9500"
definition dash :: nat where "dash = 9472"
definition corner :: nat where "corner = 9492"
definition bar :: nat where "bar = 9474"
definition check_mark :: nat where "check_mark = 9989"

definition startswith :: "str \<Rightarrow> str \<Rightarrow> bool" where
  "startswith s p = (take (length p) s = p)"

text \<open>The exceptions that can leave the two entry operations.\<close>

datatype error =
    FileNotFoundError
  | NotADirectoryError
  | PermissionError
  | ValueError str
  | KeyError str
  | TypeError
  | OSError

text \<open>
  The part of the file system below a path.  A directory holds its entries by name, in
  the order \<open>os.listdir\<close> reports them (any order); \<open>Denied\<close> is a directory that
  cannot be listed.  Everything that \<open>os.path.isdir\<close> rejects is a \<open>File\<close>.
  A path that does not exist is \<open>None\<close>.  Symbolic-link cycles are outside the model.
\<close>

datatype fsobj =
    File
  | Dir "(str \<times> fsobj) list"
  | Denied

fun isdir :: "fsobj option \<Rightarrow> bool" where
  "isdir None = False"
| "isdir (Some File) = False"
| "isdir (Some (Dir es)) = True"
| "isdir (Some Denied) = True"

fun listdir :: "fsobj option \<Rightarrow> error + str list" where
  "listdir None = Inl FileNotFoundError"
| "listdir (Some File) = Inl NotADirectoryError"
| "listdir (Some (Dir es)) = Inr (map fst es)"
| "listdir (Some Denied) = Inl PermissionError"

text \<open>\<open>os.path.join(curr_path, entry)\<close>: the object named \<open>entry\<close> below \<open>curr_path\<close>.\<close>

fun join :: "fsobj option \<Rightarrow> str \<Rightarrow> fsobj option" where
  "join (Some (Dir es)) entry = map_of es entry"
| "join p entry = None"

section \<open>The annotators\<close>

definition special_comments :: "(str \<times> str) list" where
  "special_comments =
     [(u ''main.py'', tri # u '' CLI entry point''),
      (u ''pyproject.toml'', tri # u '' For installability (recommended)'')]"

text \<open>\<open>comment_for_file\<close> of \<open>generate_tree_map\<close> (lines 31 to 37).\<close>

definition comment_for_file :: "str \<Rightarrow> str" where
  "comment_for_file filename =
     (case map_of special_comments filename of
        Some label \<Rightarrow> tri # u '' '' @ label
      | None \<Rightarrow> [])"

text \<open>\<open>comment_for_file\<close> of \<open>generate_tree_map_json\<close> (lines 94 to 99).\<close>

definition comment_for_file_json :: "str \<Rightarrow> str" where
  "comment_for_file_json filename =
     (case map_of special_comments filename of
        Some label \<Rightarrow> label
      | None \<Rightarrow> [])"

section \<open>Iteration, printing and exceptions\<close>

text \<open>
  A run of printing code is the list of strings it handed to \<open>print\<close>, in order, and
  the exception that ended it, if any.  \<open>print\<close> appends a newline to each of them;
  \<open>stdout_text\<close> is the resulting text.
\<close>

type_synonym io = "str list \<times> error option"

definition py_print :: "str \<Rightarrow> io" where
  "py_print s = ([s], None)"

definition raise :: "error \<Rightarrow> io" where
  "raise e = ([], Some e)"

definition and_then :: "io \<Rightarrow> io \<Rightarrow> io" where
  "and_then a b =
     (case a of
        (out, Some e) \<Rightarrow> (out, Some e)
      | (out, None) \<Rightarrow> (out @ fst b, snd b))"

definition stdout_text :: "str list \<Rightarrow> str" where
  "stdout_text out = concat (map (\<lambda>s. s @ [10]) out)"

text \<open>A \<open>for\<close> loop whose body prints: it stops at the first exception.\<close>

fun for_each :: "'a list \<Rightarrow> ('a \<Rightarrow> io) \<Rightarrow> io" where
  "for_each [] body = ([], None)"
| "for_each (x # xs) body = and_then (body x) (for_each xs body)"

text \<open>A \<open>for\<close> loop whose body updates a local variable and may raise.\<close>

fun for_acc :: "'a list \<Rightarrow> 's \<Rightarrow> ('a \<Rightarrow> 's \<Rightarrow> error + 's) \<Rightarrow> error + 's" where
  "for_acc [] acc body = Inr acc"
| "for_acc (x # xs) acc body =
     (case body x acc of Inl e \<Rightarrow> Inl e | Inr acc' \<Rightarrow> for_acc xs acc' body)"

lemma for_each_cong [fundef_cong]:
  "xs = ys \<Longrightarrow> (\<And>x. x \<in> set ys \<Longrightarrow> f x = g x) \<Longrightarrow> for_each xs f = for_each ys g"
  by (induction ys arbitrary: xs) auto

lemma for_acc_cong [fundef_cong]:
  "xs = ys \<Longrightarrow> a = b \<Longrightarrow> (\<And>x s. x \<in> set ys \<Longrightarrow> f x s = g x s)
     \<Longrightarrow> for_acc xs a f = for_acc ys b g"
  by (induction ys arbitrary: xs a b) (auto split: sum.splits)

lemma entry_smaller: "(name, sub) \<in> set es \<Longrightarrow> size sub < size (Dir es)"
  by (induction es) auto

lemma isdir_join_smaller:
  assumes d: "isdir (join curr_path entry)"
  shows "size_option size (join curr_path entry) < size_option size curr_path"
proof (cases curr_path)
  case None
  with d show ?thesis by simp
next
  case (Some obj)
  show ?thesis
  proof (cases obj)
    case (Dir es)
    with Some d obtain sub where sub: "map_of es entry = Some sub"
      by (cases "map_of es entry") auto
    then have "(entry, sub) \<in> set es" by (rule map_of_SomeD)
    then have "size sub < size (Dir es)" by (rule entry_smaller)
    with Some Dir sub show ?thesis by simp
  qed (use Some d in auto)
qed

section \<open>The text tree: \<open>generate_tree_map\<close>\<close>

record glyphs =
  indent :: str
  last_indent :: str
  spacer :: str
  final_spacer :: str

definition default_glyphs :: glyphs where
  "default_glyphs =
     \<lparr> indent = [tee, dash, dash] @ u '' '',
       last_indent = [corner, dash, dash] @ u '' '',
       spacer = bar # u ''   '',
       final_spacer = u ''    '' \<rparr>"

definition hidden :: "str \<Rightarrow> bool" where
  "hidden e = startswith e (u ''.'')"

function walk_dir :: "glyphs \<Rightarrow> fsobj option \<Rightarrow> str \<Rightarrow> bool \<Rightarrow> io" where
  "walk_dir g curr_path prefix is_last =
     (case listdir curr_path of
        Inl e \<Rightarrow> raise e
      | Inr names \<Rightarrow>
          let entries = sort names;
              entries = filter (\<lambda>e. \<not> startswith e (u ''.'')) entries
          in for_each (enumerate 0 entries) (\<lambda>(index, entry).
               let full_path = join curr_path entry;
                   is_entry_last = (int index = int (length entries) - 1);
                   branch = (if is_entry_last then last_indent g else indent g);
                   line_prefix = prefix @ branch;
                   next_prefix = prefix @ (if is_entry_last then final_spacer g else spacer g)
               in if isdir full_path then
                    and_then (py_print (line_prefix @ entry @ u ''/''))
                      (walk_dir g full_path next_prefix is_entry_last)
                  else
                    let comment = comment_for_file entry
                    in py_print (line_prefix @ entry @ u '' '' @ comment)))"
  by pat_completeness auto
termination
  by (relation "measure (\<lambda>(g, curr_path, prefix, is_last). size_option size curr_path)")
     (auto intro: isdir_join_smaller)

text \<open>
  What the entry operations ask of their host: the file-system state (the object a
  path names), \<open>os.path.basename(os.path.abspath(p))\<close>, and whether opening a file for
  writing and writing the document to it succeed.
\<close>

record host =
  at :: "str \<Rightarrow> fsobj option"
  basename_abspath :: "str \<Rightarrow> str"
  open_error :: "str \<Rightarrow> error option"
  dump_error :: "str \<Rightarrow> error option"

definition generate_tree_map :: "host \<Rightarrow> str \<Rightarrow> glyphs \<Rightarrow> io" where
  "generate_tree_map h root_path g =
     (let root_dir_name = basename_abspath h root_path
      in and_then (py_print (root_dir_name @ u ''/''))
           (walk_dir g (at h root_path) [] False))"

section \<open>The JSON tree: \<open>generate_tree_map_json\<close>\<close>

text \<open>
  The values the operation builds: strings, lists and dictionaries (in insertion order).
\<close>

datatype pyval =
    Str str
  | List "pyval list"
  | Dict "(str \<times> pyval) list"

text \<open>\<open>node[key]\<close> for a string key.\<close>

fun getitem :: "pyval \<Rightarrow> str \<Rightarrow> error + pyval" where
  "getitem (Dict kvs) key =
     (case map_of kvs key of Some v \<Rightarrow> Inr v | None \<Rightarrow> Inl (KeyError key))"
| "getitem (Str s) key = Inl TypeError"
| "getitem (List xs) key = Inl TypeError"

text \<open>What a \<open>for\<close> loop over a value visits, \<open>len\<close>, and truth of a value.\<close>

fun iterate :: "pyval \<Rightarrow> pyval list" where
  "iterate (List xs) = xs"
| "iterate (Str s) = map (\<lambda>c. Str [c]) s"
| "iterate (Dict kvs) = map (\<lambda>kv. Str (fst kv)) kvs"

fun len :: "pyval \<Rightarrow> nat" where
  "len (List xs) = length xs"
| "len (Str s) = length s"
| "len (Dict kvs) = length kvs"

fun truthy :: "pyval \<Rightarrow> bool" where
  "truthy (List xs) = (xs \<noteq> [])"
| "truthy (Str s) = (s \<noteq> [])"
| "truthy (Dict kvs) = (kvs \<noteq> [])"

text \<open>
  A value inside an f-string: a string stands for itself; for any other value Python
  inserts its \<open>repr\<close>, a host function that is a parameter here.
\<close>

fun format :: "(pyval \<Rightarrow> str) \<Rightarrow> pyval \<Rightarrow> str" where
  "format repr (Str s) = s"
| "format repr v = repr v"

text \<open>Evaluate an expression that may raise, then go on printing.\<close>

definition eval_then :: "error + 'a \<Rightarrow> ('a \<Rightarrow> io) \<Rightarrow> io" where
  "eval_then x k = (case x of Inl e \<Rightarrow> raise e | Inr v \<Rightarrow> k v)"

lemma eval_then_cong [fundef_cong]:
  "x = y \<Longrightarrow> (\<And>v. y = Inr v \<Longrightarrow> f v = g v) \<Longrightarrow> eval_then x f = eval_then y g"
  by (auto simp: eval_then_def split: sum.splits)

function walk_dir_json :: "fsobj option \<Rightarrow> error + pyval list" where
  "walk_dir_json curr_path =
     (case listdir curr_path of
        Inl e \<Rightarrow> Inl e
      | Inr names \<Rightarrow>
          let entries = sort names;
              entries = filter (\<lambda>e. \<not> startswith e (u ''.'')) entries
          in for_acc entries [] (\<lambda>entry tree.
               let full_path = join curr_path entry
               in if isdir full_path then
                    (case walk_dir_json full_path of
                       Inl e \<Rightarrow> Inl e
                     | Inr subtree \<Rightarrow>
                         Inr (tree @ [Dict [(u ''type'', Str (u ''directory'')),
                                            (u ''name'', Str entry),
                                            (u ''children'', List subtree)]]))
                  else
                    Inr (tree @ [Dict [(u ''type'', Str (u ''file'')),
                                       (u ''name'', Str entry),
                                       (u ''comment'', Str (comment_for_file_json entry))]])))"
  by pat_completeness auto
termination
  by (relation "measure (size_option size)") (auto intro: isdir_join_smaller)

lemma item_smaller: "(key, v) \<in> set kvs \<Longrightarrow> size v < size (Dict kvs)"
  by (induction kvs) auto

lemma getitem_smaller: "getitem node key = Inr v \<Longrightarrow> size v < size node"
  by (cases node) (auto split: option.splits dest!: map_of_SomeD item_smaller)

lemma element_smaller: "x \<in> set xs \<Longrightarrow> size x < size (List xs)"
  by (induction xs) auto

lemma iterate_smaller:
  "node \<in> set (iterate tree) \<Longrightarrow> getitem node key = Inr v \<Longrightarrow> size node < size tree"
  by (cases tree) (auto dest: element_smaller)

lemma children_smaller:
  assumes "i < length (iterate tree)" and "getitem (iterate tree ! i) key = Inr v"
  shows "size v < size tree"
proof -
  from assms(1) have "iterate tree ! i \<in> set (iterate tree)" by simp
  then have "size (iterate tree ! i) < size tree" using assms(2) by (rule iterate_smaller)
  moreover from assms(2) have "size v < size (iterate tree ! i)" by (rule getitem_smaller)
  ultimately show ?thesis by simp
qed

function print_tree :: "(pyval \<Rightarrow> str) \<Rightarrow> pyval \<Rightarrow> str \<Rightarrow> io" where
  "print_tree repr tree prefix =
     for_each (enumerate 0 (iterate tree)) (\<lambda>(idx, node).
       let is_last = (int idx = int (len tree) - 1);
           branch = (if is_last then [corner, dash, dash] @ u '' '' else [tee, dash, dash] @ u '' '');
           next_prefix = prefix @ (if is_last then u ''    '' else bar # u ''   '')
       in eval_then (getitem node (u ''type'')) (\<lambda>ty.
            if ty = Str (u ''directory'') then
              eval_then (getitem node (u ''name'')) (\<lambda>name.
                and_then (py_print (prefix @ branch @ format repr name @ u ''/''))
                  (eval_then (getitem node (u ''children'')) (\<lambda>children.
                     print_tree repr children next_prefix)))
            else
              eval_then (getitem node (u ''comment'')) (\<lambda>c.
                let comment = (if truthy c then u '' '' @ format repr c else [])
                in eval_then (getitem node (u ''name'')) (\<lambda>name.
                     py_print (prefix @ branch @ format repr name @ comment)))))"
  by pat_completeness auto
termination
  by (relation "measure (\<lambda>(repr, tree, prefix). size tree)")
     (auto simp: in_set_enumerate_eq intro: children_smaller)


text \<open>
  What happens to the output file: it is opened (\<open>open(path, "w", encoding="utf-8")\<close>
  creates or truncates it), \<open>json.dump(doc, f, indent=n)\<close> writes the document, and
  leaving the \<open>with\<close> block closes it.  A run of the operation is what it printed, what
  it did to files and the exception that ended it, if any.
\<close>

datatype fileop =
    Open str str str
  | Dump pyval nat
  | Close

record run =
  stdout :: "str list"
  files :: "fileop list"
  raised :: "error option"

definition generate_tree_map_json :: "host \<Rightarrow> (pyval \<Rightarrow> str) \<Rightarrow> str \<Rightarrow> str option \<Rightarrow> run" where
  "generate_tree_map_json h repr root_path output_json_path =
     (if \<not> isdir (at h root_path) then
        \<lparr> stdout = [], files = [],
          raised = Some (ValueError (u [CHR 0x27] @ root_path @ u [CHR 0x27] @ u '' is not a valid directory.'')) \<rparr>
      else
        (case walk_dir_json (at h root_path) of
          Inl e \<Rightarrow> \<lparr> stdout = [], files = [], raised = Some e \<rparr>
        | Inr tree_structure \<Rightarrow>
            (let root_name = basename_abspath h root_path;
                 printed = and_then (py_print (root_name @ u ''/''))
                             (print_tree repr (List tree_structure) [])
             in (case snd printed of
                 Some e \<Rightarrow> \<lparr> stdout = fst printed, files = [], raised = Some e \<rparr>
               | None \<Rightarrow>
                   (case output_json_path of
                      None \<Rightarrow> \<lparr> stdout = fst printed, files = [], raised = None \<rparr>
                    | Some path \<Rightarrow>
                        if path = [] then \<lparr> stdout = fst printed, files = [], raised = None \<rparr>
                        else
                          (case open_error h path of
                             Some e \<Rightarrow> \<lparr> stdout = fst printed, files = [], raised = Some e \<rparr>
                           | None \<Rightarrow>
                               (case dump_error h path of
                                  Some e \<Rightarrow>
                                    \<lparr> stdout = fst printed,
                                      files = [Open path (u ''w'') (u ''utf-8''), Close],
                                      raised = Some e \<rparr>
                                | None \<Rightarrow>
                                    \<lparr> stdout = fst printed @
                                        [10 # check_mark # u '' Tree structure saved to '' @ path],
                                      files = [Open path (u ''w'') (u ''utf-8''),
                                               Dump (Dict [(u ''root'', Str root_name),
                                                           (u ''structure'', List tree_structure)]) 4,
                                               Close],
                                      raised = None \<rparr>)))))))"


section \<open>The specification's data model, walker and renderer\<close>

text \<open>
  The definitions of this section follow the words of the specification, not the code:
  its Directory Entry (section 3), its Recursive Walker (4.3), its Text Renderer (4.4) and
  the node objects of its JSON Serializer (4.5).  The code is compared with them below.
\<close>

declare walk_dir.simps [simp del] walk_dir_json.simps [simp del] print_tree.simps [simp del]

datatype entry =
    FileEntry str
  | DirEntry str "entry list"

fun entry_name :: "entry \<Rightarrow> str" where
  "entry_name (FileEntry n) = n"
| "entry_name (DirEntry n cs) = n"

fun spec_node :: "entry \<Rightarrow> pyval" where
  "spec_node (FileEntry n) =
     Dict [(u ''type'', Str (u ''file'')), (u ''name'', Str n),
           (u ''comment'', Str (comment_for_file_json n))]"
| "spec_node (DirEntry n cs) =
     Dict [(u ''type'', Str (u ''directory'')), (u ''name'', Str n),
           (u ''children'', List (map spec_node cs))]"

text \<open>The Entry Filter (4.1) applied to the sorted listing.\<close>

definition visible_sorted :: "str list \<Rightarrow> str list" where
  "visible_sorted names = filter (\<lambda>e. \<not> hidden e) (sort names)"

text \<open>
  The walker: the entries of a directory, sorted and without the hidden ones, each
  classified by the file system; a directory entry carries its own entries.  A directory
  that cannot be listed has none here; \<open>listable\<close> says that no listing fails.
\<close>

function spec_scan :: "fsobj option \<Rightarrow> entry list" where
  "spec_scan curr_path =
     (case listdir curr_path of
        Inl e \<Rightarrow> []
      | Inr names \<Rightarrow>
          map (\<lambda>entry. if isdir (join curr_path entry)
                        then DirEntry entry (spec_scan (join curr_path entry))
                        else FileEntry entry)
            (visible_sorted names))"
  by pat_completeness auto
termination
  by (relation "measure (size_option size)") (auto intro: isdir_join_smaller)

function listable :: "fsobj option \<Rightarrow> bool" where
  "listable curr_path =
     (case listdir curr_path of
        Inl e \<Rightarrow> False
      | Inr names \<Rightarrow>
          (\<forall>entry \<in> set (visible_sorted names).
             isdir (join curr_path entry) \<longrightarrow> listable (join curr_path entry)))"
  by pat_completeness auto
termination
  by (relation "measure (size_option size)") (auto intro: isdir_join_smaller)

declare spec_scan.simps [simp del] listable.simps [simp del]

text \<open>
  The renderer: one line per entry, depth first, a directory's line before its
  children's.  The last entry of a group takes the "last" branch glyph and hands the
  "final" spacer down; a directory line ends with \<open>/\<close>; what follows the name on a file
  line is the parameter \<open>suffix\<close>.
\<close>

definition is_last_index :: "nat \<Rightarrow> nat \<Rightarrow> bool" where
  "is_last_index i n = (int i = int n - 1)"

function spec_render :: "glyphs \<Rightarrow> (str \<Rightarrow> str) \<Rightarrow> str \<Rightarrow> entry list \<Rightarrow> str list" where
  "spec_render g suffix prefix es =
     concat (map (\<lambda>(i, e).
       let last = is_last_index i (length es);
           branch = (if last then last_indent g else indent g);
           next_prefix = prefix @ (if last then final_spacer g else spacer g)
       in case e of
            FileEntry n \<Rightarrow> [prefix @ branch @ n @ suffix n]
          | DirEntry n cs \<Rightarrow> (prefix @ branch @ n @ u ''/'') # spec_render g suffix next_prefix cs)
       (enumerate 0 es))"
  by pat_completeness auto
termination
proof (relation "measure (\<lambda>(g, suffix, prefix, es). size_list size es)", goal_cases)
  case 1
  show ?case by simp
next
  case (2 g suffix prefix es x i e last branch next_prefix n cs)
  then have "i < length es" and "es ! i = e" by (auto simp: in_set_enumerate_eq)
  then have "e \<in> set es" using nth_mem by blast
  then have "size e \<le> size_list size es" by (simp add: size_list_estimation')
  with 2 show ?case by simp
qed

declare spec_render.simps [simp del]

text \<open>What each operation puts after the name on a file line.\<close>

definition json_suffix :: "str \<Rightarrow> str" where
  "json_suffix n = (if comment_for_file_json n = [] then [] else u '' '' @ comment_for_file_json n)"

definition text_suffix :: "str \<Rightarrow> str" where
  "text_suffix n = u '' '' @ comment_for_file n"

text \<open>
  The file system without its hidden entries, at every level.  \<open>pruned_host\<close> is a host
  whose file system has none.
\<close>

fun prune :: "fsobj \<Rightarrow> fsobj" where
  "prune File = File"
| "prune Denied = Denied"
| "prune (Dir es) = Dir (map (\<lambda>(n, s). (n, prune s)) (filter (\<lambda>(n, s). \<not> hidden n) es))"

definition pruned_host :: "host \<Rightarrow> host" where
  "pruned_host h = h \<lparr> at := \<lambda>p. map_option prune (at h p) \<rparr>"

text \<open>
  A well-formed file system lists no name twice in a directory.
\<close>

fun wf_fs :: "fsobj \<Rightarrow> bool" where
  "wf_fs File = True"
| "wf_fs Denied = True"
| "wf_fs (Dir es) = (distinct (map fst es) \<and> (\<forall>(n, s) \<in> set es. wf_fs s))"

definition wf_path :: "fsobj option \<Rightarrow> bool" where
  "wf_path p = (case p of None \<Rightarrow> True | Some fs \<Rightarrow> wf_fs fs)"

text \<open>
  An entry sequence is in strict ascending order at every level; none of its names is
  hidden.
\<close>

fun ordered_entry :: "entry \<Rightarrow> bool" where
  "ordered_entry (FileEntry n) = True"
| "ordered_entry (DirEntry n cs) = (sorted_wrt (<) (map entry_name cs) \<and> list_all ordered_entry cs)"

fun visible_entry :: "entry \<Rightarrow> bool" where
  "visible_entry (FileEntry n) = (\<not> hidden n)"
| "visible_entry (DirEntry n cs) = (\<not> hidden n \<and> list_all visible_entry cs)"


section \<open>Example file systems\<close>

text \<open>
  \<open>r\<close> holds a file \<open>b\<close>, a hidden directory \<open>.h\<close> that cannot be listed and a
  directory \<open>a\<close> with the file \<open>main.py\<close>; \<open>l\<close> holds a directory \<open>d\<close> that cannot be
  listed; \<open>f\<close> is a file; no other path exists.  The file \<open>ro\<close> cannot be opened for
  writing, and writing to the file \<open>full\<close> fails.
\<close>

definition example_tree :: fsobj where
  "example_tree =
     Dir [(u ''b'', File), (u ''.h'', Denied), (u ''a'', Dir [(u ''main.py'', File)])]"

definition locked_tree :: fsobj where
  "locked_tree = Dir [(u ''d'', Denied)]"

definition example_host :: host where
  "example_host =
     \<lparr> at = (\<lambda>p. if p = u ''r'' then Some example_tree
                 else if p = u ''l'' then Some locked_tree
                 else if p = u ''f'' then Some File else None),
       basename_abspath = (\<lambda>p. p),
       open_error = (\<lambda>p. if p = u ''ro'' then Some PermissionError else None),
       dump_error = (\<lambda>p. if p = u ''full'' then Some OSError else None) \<rparr>"

text \<open>What \<open>walk_dir_json\<close> builds for \<open>r\<close>.\<close>

definition example_nodes :: "pyval list" where
  "example_nodes =
     [Dict [(u ''type'', Str (u ''directory'')), (u ''name'', Str (u ''a'')),
            (u ''children'',
             List [Dict [(u ''type'', Str (u ''file'')), (u ''name'', Str (u ''main.py'')),
                         (u ''comment'', Str (tri # u '' CLI entry point''))]])],
      Dict [(u ''type'', Str (u ''file'')), (u ''name'', Str (u ''b'')),
            (u ''comment'', Str [])]]"

text \<open>
  A \<open>repr\<close> for the evaluations below.  Every formatted value of the examples is a
  string, so it is never applied there.
\<close>

definition plain_repr :: "pyval \<Rightarrow> str" where
  "plain_repr v = []"

section \<open>The code against the specification's walker and renderer\<close>

lemma for_acc_append:
  assumes "\<And>x t. x \<in> set xs \<Longrightarrow> body x t = Inr (t @ [f x])"
  shows "for_acc xs acc body = Inr (acc @ map f xs)"
  using assms by (induction xs arbitrary: acc) auto

lemma for_acc_InrD:
  assumes "for_acc xs acc body = Inr r" and "x \<in> set xs"
  shows "\<exists>t t'. body x t = Inr t'"
  using assms by (induction xs arbitrary: acc) (auto split: sum.splits)

lemma for_each_concat:
  assumes "\<And>x. x \<in> set xs \<Longrightarrow> body x = (f x, None)"
  shows "for_each xs body = (concat (map f xs), None)"
  using assms by (induction xs) (auto simp: and_then_def)


lemma visible_sorted_eq: "filter (\<lambda>e. \<not> startswith e (u ''.'')) (sort names) = visible_sorted names"
  by (simp add: visible_sorted_def hidden_def)

lemma walk_dir_json_listable:
  "listable p \<Longrightarrow> walk_dir_json p = Inr (map spec_node (spec_scan p))"
proof (induction p rule: walk_dir_json.induct)
  case (1 curr_path)
  from "1.prems" obtain names where names: "listdir curr_path = Inr names"
    by (cases "listdir curr_path") (auto simp: listable.simps [of curr_path])
  let ?F = "\<lambda>entry. if isdir (join curr_path entry)
                        then DirEntry entry (spec_scan (join curr_path entry))
                        else FileEntry entry"
  have sub: "walk_dir_json (join curr_path entry)
               = Inr (map spec_node (spec_scan (join curr_path entry)))"
    if "entry \<in> set (visible_sorted names)" "isdir (join curr_path entry)" for entry
  proof -
    from "1.prems" names that have "listable (join curr_path entry)"
      by (auto simp: listable.simps [of curr_path])
    with "1.IH" [OF names refl refl _ refl] that show ?thesis
      by (simp add: visible_sorted_eq)
  qed
  have "for_acc (visible_sorted names) []
          (\<lambda>entry tree.
               let full_path = join curr_path entry
               in if isdir full_path then
                    (case walk_dir_json full_path of
                       Inl e \<Rightarrow> Inl e
                     | Inr subtree \<Rightarrow>
                         Inr (tree @ [Dict [(u ''type'', Str (u ''directory'')),
                                            (u ''name'', Str entry),
                                            (u ''children'', List subtree)]]))
                  else
                    Inr (tree @ [Dict [(u ''type'', Str (u ''file'')),
                                       (u ''name'', Str entry),
                                       (u ''comment'', Str (comment_for_file_json entry))]]))
        = Inr ([] @ map (\<lambda>entry. spec_node (?F entry)) (visible_sorted names))"
    by (rule for_acc_append) (simp add: sub)
  with names show ?case
    by (simp add: walk_dir_json.simps [of curr_path] spec_scan.simps [of curr_path]
        visible_sorted_eq)
qed

lemma walk_dir_json_Inr_listable:
  "walk_dir_json p = Inr tree \<Longrightarrow> listable p"
proof (induction p arbitrary: tree rule: walk_dir_json.induct)
  case (1 curr_path)
  from "1.prems" obtain names where names: "listdir curr_path = Inr names"
    by (cases "listdir curr_path") (auto simp: walk_dir_json.simps [of curr_path])
  have "listable (join curr_path entry)"
    if e: "entry \<in> set (visible_sorted names)" and d: "isdir (join curr_path entry)" for entry
  proof -
    from "1.prems" names have "for_acc (visible_sorted names) []
          (\<lambda>entry tree.
               let full_path = join curr_path entry
               in if isdir full_path then
                    (case walk_dir_json full_path of
                       Inl e \<Rightarrow> Inl e
                     | Inr subtree \<Rightarrow>
                         Inr (tree @ [Dict [(u ''type'', Str (u ''directory'')),
                                            (u ''name'', Str entry),
                                            (u ''children'', List subtree)]]))
                  else
                    Inr (tree @ [Dict [(u ''type'', Str (u ''file'')),
                                       (u ''name'', Str entry),
                                       (u ''comment'', Str (comment_for_file_json entry))]]))
        = Inr tree"
      by (simp add: walk_dir_json.simps [of curr_path] visible_sorted_eq)
    from for_acc_InrD [OF this e] d obtain subtree
      where "walk_dir_json (join curr_path entry) = Inr subtree"
      by (cases "walk_dir_json (join curr_path entry)") auto
    with "1.IH" [OF names refl refl _ refl d] e show ?thesis
      by (simp add: visible_sorted_eq)
  qed
  with names show ?case by (simp add: listable.simps [of curr_path])
qed


lemma enumerate_map: "enumerate n (map f xs) = map (\<lambda>(i, x). (i, f x)) (enumerate n xs)"
  by (simp add: enumerate_eq_zip zip_map2)

lemma in_enumerate_set: "(i, x) \<in> set (enumerate 0 xs) \<Longrightarrow> x \<in> set xs"
  by (auto simp: in_set_enumerate_eq)

lemma and_then_print: "and_then (py_print s) (out, r) = (s # out, r)"
  by (simp add: and_then_def py_print_def)

lemma walk_dir_listable:
  "listable p \<Longrightarrow> walk_dir g p pfx b = (spec_render g text_suffix pfx (spec_scan p), None)"
proof (induction "size_option size p" arbitrary: p pfx b rule: less_induct)
  case less
  from less.prems obtain names where names: "listdir p = Inr names"
    by (cases "listdir p") (auto simp: listable.simps [of p])
  let ?es = "visible_sorted names"
  let ?F = "\<lambda>entry. if isdir (join p entry)
                        then DirEntry entry (spec_scan (join p entry))
                        else FileEntry entry"
  let ?R = "\<lambda>(i, e).
       let last = is_last_index i (length ?es);
           branch = (if last then last_indent g else indent g);
           next_prefix = pfx @ (if last then final_spacer g else spacer g)
       in case e of
            FileEntry n \<Rightarrow> [pfx @ branch @ n @ text_suffix n]
          | DirEntry n cs \<Rightarrow> (pfx @ branch @ n @ u ''/'') # spec_render g text_suffix next_prefix cs"
  let ?body = "\<lambda>(index, entry).
               let full_path = join p entry;
                   is_entry_last = (int index = int (length ?es) - 1);
                   branch = (if is_entry_last then last_indent g else indent g);
                   line_prefix = pfx @ branch;
                   next_prefix = pfx @ (if is_entry_last then final_spacer g else spacer g)
               in if isdir full_path then
                    and_then (py_print (line_prefix @ entry @ u ''/''))
                      (walk_dir g full_path next_prefix is_entry_last)
                  else
                    let comment = comment_for_file entry
                    in py_print (line_prefix @ entry @ u '' '' @ comment)"
  have body: "?body x = ((\<lambda>(i, entry). ?R (i, ?F entry)) x, None)"
    if x: "x \<in> set (enumerate 0 ?es)" for x
  proof -
    obtain i entry where [simp]: "x = (i, entry)" by (cases x)
    from x have mem: "entry \<in> set ?es" by (auto dest: in_enumerate_set)
    show ?thesis
    proof (cases "isdir (join p entry)")
      case True
      with less.prems names mem have "listable (join p entry)"
        by (auto simp: listable.simps [of p])
      moreover from True have "size_option size (join p entry) < size_option size p"
        by (rule isdir_join_smaller)
      ultimately have "walk_dir g (join p entry) pfx' b'
          = (spec_render g text_suffix pfx' (spec_scan (join p entry)), None)" for pfx' b'
        using less.hyps by blast
      with True show ?thesis
        by (simp add: Let_def and_then_print is_last_index_def)
    next
      case False
      then show ?thesis
        by (simp add: Let_def py_print_def is_last_index_def text_suffix_def)
    qed
  qed
  have "for_each (enumerate 0 ?es) ?body
          = (concat (map (\<lambda>(i, entry). ?R (i, ?F entry)) (enumerate 0 ?es)), None)"
    by (rule for_each_concat) (rule body)
  moreover have "walk_dir g p pfx b = for_each (enumerate 0 ?es) ?body"
    using names by (simp add: walk_dir.simps [of g p pfx b] visible_sorted_def hidden_def Let_def)
  moreover have "spec_render g text_suffix pfx (spec_scan p)
          = concat (map (\<lambda>(i, entry). ?R (i, ?F entry)) (enumerate 0 ?es))"
  proof -
    have "spec_scan p = map ?F ?es"
      using names by (simp add: spec_scan.simps [of p])
    moreover have "spec_render g text_suffix pfx (map ?F ?es)
          = concat (map ?R (enumerate 0 (map ?F ?es)))"
      by (subst spec_render.simps) simp
    moreover have "map ?R (enumerate 0 (map ?F ?es))
          = map (\<lambda>(i, entry). ?R (i, ?F entry)) (enumerate 0 ?es)"
      by (simp add: enumerate_map case_prod_unfold)
    ultimately show ?thesis by simp
  qed
  ultimately show ?case by simp
qed


lemma getitem_file [simp]:
  "getitem (spec_node (FileEntry n)) (u ''type'') = Inr (Str (u ''file''))"
  "getitem (spec_node (FileEntry n)) (u ''name'') = Inr (Str n)"
  "getitem (spec_node (FileEntry n)) (u ''comment'') = Inr (Str (comment_for_file_json n))"
  by (simp_all add: u_def)

lemma iterate_len_nodes [simp]:
  "iterate (List (map spec_node es)) = map spec_node es"
  "len (List (map spec_node es)) = length es"
  by simp_all

lemma getitem_dir [simp]:
  "getitem (spec_node (DirEntry n cs)) (u ''type'') = Inr (Str (u ''directory''))"
  "getitem (spec_node (DirEntry n cs)) (u ''name'') = Inr (Str n)"
  "getitem (spec_node (DirEntry n cs)) (u ''children'') = Inr (List (map spec_node cs))"
  by (simp_all add: u_def)

declare spec_node.simps [simp del]

lemma file_not_directory [simp]: "u ''file'' \<noteq> u ''directory''"
  by (simp add: u_def)

lemma eval_then_Inr [simp]: "eval_then (Inr v) k = k v"
  by (simp add: eval_then_def)

lemma eval_then_Inl [simp]: "eval_then (Inl e) k = raise e"
  by (simp add: eval_then_def)

lemma for_each_map: "for_each (map h xs) body = for_each xs (body \<circ> h)"
  by (induction xs) auto

lemma print_tree_spec_node:
  "print_tree repr (List (map spec_node es)) pfx
     = (spec_render default_glyphs json_suffix pfx es, None)"
proof (induction "size_list size es" arbitrary: es pfx rule: less_induct)
  case less
  let ?R = "\<lambda>(i, e).
       let last = is_last_index i (length es);
           branch = (if last then last_indent default_glyphs else indent default_glyphs);
           next_prefix = pfx @ (if last then final_spacer default_glyphs else spacer default_glyphs)
       in case e of
            FileEntry n \<Rightarrow> [pfx @ branch @ n @ json_suffix n]
          | DirEntry n cs \<Rightarrow>
              (pfx @ branch @ n @ u ''/'') # spec_render default_glyphs json_suffix next_prefix cs"
  let ?body = "\<lambda>(idx, node).
       let is_last = (int idx = int (len (List (map spec_node es))) - 1);
           branch = (if is_last then [corner, dash, dash] @ u '' '' else [tee, dash, dash] @ u '' '');
           next_prefix = pfx @ (if is_last then u ''    '' else bar # u ''   '')
       in eval_then (getitem node (u ''type'')) (\<lambda>ty.
            if ty = Str (u ''directory'') then
              eval_then (getitem node (u ''name'')) (\<lambda>name.
                and_then (py_print (pfx @ branch @ format repr name @ u ''/''))
                  (eval_then (getitem node (u ''children'')) (\<lambda>children.
                     print_tree repr children next_prefix)))
            else
              eval_then (getitem node (u ''comment'')) (\<lambda>c.
                let comment = (if truthy c then u '' '' @ format repr c else [])
                in eval_then (getitem node (u ''name'')) (\<lambda>name.
                     py_print (pfx @ branch @ format repr name @ comment))))"
  have body: "?body (i, spec_node e) = (?R (i, e), None)"
    if x: "(i, e) \<in> set (enumerate 0 es)" for i e
  proof (cases e)
    case (FileEntry n)
    then show ?thesis
      by (simp add: Let_def py_print_def is_last_index_def json_suffix_def default_glyphs_def)
  next
    case (DirEntry n cs)
    from x have "e \<in> set es" by (rule in_enumerate_set)
    then have "size e \<le> size_list size es" by (simp add: size_list_estimation')
    with DirEntry have "size_list size cs < size_list size es" by simp
    then have "print_tree repr (List (map spec_node cs)) pfx'
        = (spec_render default_glyphs json_suffix pfx' cs, None)" for pfx'
      by (rule less.hyps)
    with DirEntry show ?thesis
      by (simp add: Let_def and_then_print is_last_index_def default_glyphs_def)
  qed
  have "print_tree repr (List (map spec_node es)) pfx
          = for_each (enumerate 0 (map spec_node es)) ?body"
    by (subst print_tree.simps) simp
  also have "\<dots> = for_each (enumerate 0 es) (\<lambda>(i, e). ?body (i, spec_node e))"
    by (simp add: enumerate_map for_each_map case_prod_unfold comp_def)
  also have "\<dots> = (concat (map ?R (enumerate 0 es)), None)"
    by (rule for_each_concat) (use body in auto)
  also have "concat (map ?R (enumerate 0 es)) = spec_render default_glyphs json_suffix pfx es"
    by (subst spec_render.simps) simp
  finally show ?case .
qed

lemma walk_dir_Inl: "listdir p = Inl e \<Longrightarrow> walk_dir g p pfx b = raise e"
  by (simp add: walk_dir.simps [of g p pfx b])

lemma walk_dir_Inr:
  "listdir p = Inr names \<Longrightarrow>
   walk_dir g p pfx b =
     for_each (enumerate 0 (visible_sorted names)) (\<lambda>(index, entry).
       if isdir (join p entry) then
         and_then
           (py_print (pfx @ (if is_last_index index (length (visible_sorted names))
                             then last_indent g else indent g) @ entry @ u ''/''))
           (walk_dir g (join p entry)
              (pfx @ (if is_last_index index (length (visible_sorted names))
                      then final_spacer g else spacer g))
              (is_last_index index (length (visible_sorted names))))
       else
         py_print (pfx @ (if is_last_index index (length (visible_sorted names))
                          then last_indent g else indent g) @ entry @ u '' '' @ comment_for_file entry))"
  by (simp add: walk_dir.simps [of g p pfx b] visible_sorted_def hidden_def Let_def is_last_index_def
      cong: if_cong)

lemma walk_dir_json_Inl: "listdir p = Inl e \<Longrightarrow> walk_dir_json p = Inl e"
  by (simp add: walk_dir_json.simps [of p])

lemma walk_dir_json_Inr:
  "listdir p = Inr names \<Longrightarrow>
   walk_dir_json p =
     for_acc (visible_sorted names) [] (\<lambda>entry tree.
       if isdir (join p entry) then
         (case walk_dir_json (join p entry) of
            Inl e \<Rightarrow> Inl e
          | Inr subtree \<Rightarrow>
              Inr (tree @ [Dict [(u ''type'', Str (u ''directory'')),
                                 (u ''name'', Str entry),
                                 (u ''children'', List subtree)]]))
       else
         Inr (tree @ [Dict [(u ''type'', Str (u ''file'')),
                            (u ''name'', Str entry),
                            (u ''comment'', Str (comment_for_file_json entry))]]))"
  by (simp add: walk_dir_json.simps [of p] visible_sorted_def hidden_def Let_def cong: if_cong)

lemma names_prune:
  "map fst (map (\<lambda>(n, s). (n, prune s)) (filter (\<lambda>(n, s). \<not> hidden n) es))
     = filter (\<lambda>n. \<not> hidden n) (map fst es)"
  by (induction es) auto

lemma listdir_prune:
  "listdir (map_option prune p) = map_sum id (filter (\<lambda>n. \<not> hidden n)) (listdir p)"
  by (cases p rule: listdir.cases) (simp_all add: names_prune del: map_map)

lemma visible_sorted_filter:
  "visible_sorted (filter (\<lambda>n. \<not> hidden n) names) = visible_sorted names"
  by (simp add: visible_sorted_def filter_sort [symmetric])

lemma map_of_prune:
  "\<not> hidden entry \<Longrightarrow>
   map_of (map (\<lambda>(n, s). (n, prune s)) (filter (\<lambda>(n, s). \<not> hidden n) es)) entry
     = map_option prune (map_of es entry)"
  by (induction es) auto

lemma join_prune:
  "\<not> hidden entry \<Longrightarrow> join (map_option prune p) entry = map_option prune (join p entry)"
  by (cases p rule: listdir.cases) (simp_all add: map_of_prune)

lemma isdir_prune: "isdir (map_option prune p) = isdir p"
  by (cases p rule: isdir.cases) simp_all

lemma visible_sorted_visible: "entry \<in> set (visible_sorted names) \<Longrightarrow> \<not> hidden entry"
  by (simp add: visible_sorted_def)

lemma walk_dir_prune: "walk_dir g (map_option prune p) pfx b = walk_dir g p pfx b"
proof (induction "size_option size p" arbitrary: p pfx b rule: less_induct)
  case less
  show ?case
  proof (cases "listdir p")
    case (Inl e)
    then show ?thesis by (simp add: walk_dir_Inl listdir_prune)
  next
    case (Inr names)
    then have pruned: "listdir (map_option prune p) = Inr (filter (\<lambda>n. \<not> hidden n) names)"
      by (simp add: listdir_prune)
    have sub: "walk_dir g (map_option prune (join p entry)) pfx' b' = walk_dir g (join p entry) pfx' b'"
      if "isdir (join p entry)" for entry pfx' b'
      using less.hyps isdir_join_smaller [OF that] by blast
    show ?thesis
      unfolding walk_dir_Inr [OF Inr] walk_dir_Inr [OF pruned] visible_sorted_filter
      by (rule for_each_cong)
         (auto dest!: in_enumerate_set visible_sorted_visible simp: join_prune isdir_prune sub)
  qed
qed


lemma walk_dir_json_prune: "walk_dir_json (map_option prune p) = walk_dir_json p"
proof (induction "size_option size p" arbitrary: p rule: less_induct)
  case less
  show ?case
  proof (cases "listdir p")
    case (Inl e)
    then show ?thesis by (simp add: walk_dir_json_Inl listdir_prune)
  next
    case (Inr names)
    then have pruned: "listdir (map_option prune p) = Inr (filter (\<lambda>n. \<not> hidden n) names)"
      by (simp add: listdir_prune)
    have sub: "walk_dir_json (map_option prune (join p entry)) = walk_dir_json (join p entry)"
      if "isdir (join p entry)" for entry
      using less.hyps isdir_join_smaller [OF that] by blast
    show ?thesis
      unfolding walk_dir_json_Inr [OF Inr] walk_dir_json_Inr [OF pruned] visible_sorted_filter
      by (rule for_acc_cong)
         (auto dest!: visible_sorted_visible simp: join_prune isdir_prune sub)
  qed
qed

lemma generate_tree_map_prune:
  "generate_tree_map (pruned_host h) root_path g = generate_tree_map h root_path g"
  by (simp add: generate_tree_map_def pruned_host_def walk_dir_prune)

lemma generate_tree_map_json_prune:
  "generate_tree_map_json (pruned_host h) repr root_path out = generate_tree_map_json h repr root_path out"
  by (simp add: generate_tree_map_json_def pruned_host_def walk_dir_json_prune isdir_prune Let_def
      cong: sum.case_cong option.case_cong if_cong)

lemma spec_scan_unfold:
  "listdir p = Inr names \<Longrightarrow>
   spec_scan p = map (\<lambda>entry. if isdir (join p entry)
                        then DirEntry entry (spec_scan (join p entry))
                        else FileEntry entry) (visible_sorted names)"
  by (simp add: spec_scan.simps [of p])

lemma spec_scan_Inl: "listdir p = Inl e \<Longrightarrow> spec_scan p = []"
  by (simp add: spec_scan.simps [of p])

lemma spec_scan_visible: "list_all visible_entry (spec_scan p)"
proof (induction "size_option size p" arbitrary: p rule: less_induct)
  case less
  show ?case
  proof (cases "listdir p")
    case (Inl e)
    then show ?thesis by (simp add: spec_scan_Inl)
  next
    case (Inr names)
    have "list_all visible_entry (spec_scan (join p entry))" if "isdir (join p entry)" for entry
      using less.hyps isdir_join_smaller [OF that] by blast
    then show ?thesis
      by (auto simp: spec_scan_unfold [OF Inr] list_all_iff dest: visible_sorted_visible)
  qed
qed


lemma wf_path_join: "wf_path p \<Longrightarrow> wf_path (join p entry)"
proof (cases p rule: listdir.cases)
  case (3 es)
  assume "wf_path p"
  with 3 have "\<forall>(n, s) \<in> set es. wf_fs s" by (simp add: wf_path_def)
  then have "wf_fs sub" if "map_of es entry = Some sub" for sub
    using map_of_SomeD [OF that] by auto
  with 3 show ?thesis by (auto simp: wf_path_def split: option.splits)
qed (simp_all add: wf_path_def)

lemma wf_path_distinct: "wf_path p \<Longrightarrow> listdir p = Inr names \<Longrightarrow> distinct names"
  by (cases p rule: listdir.cases) (auto simp: wf_path_def)

lemma visible_sorted_strict: "distinct names \<Longrightarrow> sorted_wrt (<) (visible_sorted names)"
  by (simp add: visible_sorted_def strict_sorted_iff sorted_wrt_filter)

lemma spec_scan_names:
  "listdir p = Inr names \<Longrightarrow> map entry_name (spec_scan p) = visible_sorted names"
  by (simp add: spec_scan_unfold comp_def map_idI)

lemma spec_scan_ordered:
  "wf_path p \<Longrightarrow>
   sorted_wrt (<) (map entry_name (spec_scan p)) \<and> list_all ordered_entry (spec_scan p)"
proof (induction "size_option size p" arbitrary: p rule: less_induct)
  case less
  show ?case
  proof (cases "listdir p")
    case (Inl e)
    then show ?thesis by (simp add: spec_scan_Inl)
  next
    case (Inr names)
    have "ordered_entry (DirEntry entry (spec_scan (join p entry)))"
      if "isdir (join p entry)" for entry
      using less.hyps [OF isdir_join_smaller [OF that] wf_path_join [OF less.prems]] by simp
    then have "list_all ordered_entry (spec_scan p)"
      by (auto simp: spec_scan_unfold [OF Inr] list_all_iff)
    moreover have "sorted_wrt (<) (map entry_name (spec_scan p))"
      using wf_path_distinct [OF less.prems Inr]
      by (simp add: spec_scan_names [OF Inr] visible_sorted_strict)
    ultimately show ?thesis by simp
  qed
qed

lemma generate_tree_map_listable:
  "listable (at h root_path) \<Longrightarrow>
   generate_tree_map h root_path g
     = ((basename_abspath h root_path @ u ''/'')
          # spec_render g text_suffix [] (spec_scan (at h root_path)), None)"
  by (simp add: generate_tree_map_def walk_dir_listable and_then_print)

lemma listable_isdir: "listable p \<Longrightarrow> isdir p"
  by (cases p rule: isdir.cases) (auto simp: listable.simps)

lemma walked_isdir: "walk_dir_json p = Inr tree \<Longrightarrow> isdir p"
  by (auto dest: walk_dir_json_Inr_listable listable_isdir)

lemma walked_tree: "walk_dir_json p = Inr tree \<Longrightarrow> tree = map spec_node (spec_scan p)"
  using walk_dir_json_Inr_listable [of p tree] walk_dir_json_listable [of p] by simp

lemma printed_tree:
  assumes "walk_dir_json p = Inr tree"
  shows "and_then (py_print line) (print_tree repr (List tree) [])
           = (line # spec_render default_glyphs json_suffix [] (spec_scan p), None)"
  using walked_tree [OF assms] by (simp add: print_tree_spec_node and_then_print)

lemma listdir_not_dir:
  "\<not> isdir p \<Longrightarrow> listdir p = Inl (if p = None then FileNotFoundError else NotADirectoryError)"
  by (cases p rule: isdir.cases) auto

lemma gtmj_no_path:
  assumes "walk_dir_json (at h root_path) = Inr tree"
  shows "generate_tree_map_json h repr root_path None
     = \<lparr> stdout = (basename_abspath h root_path @ u ''/'') # fst (print_tree repr (List tree) []),
         files = [], raised = None \<rparr>"
  using assms walked_isdir [OF assms] printed_tree [OF assms, of "basename_abspath h root_path @ u ''/''" repr]
    walked_tree [OF assms]
  by (simp add: generate_tree_map_json_def Let_def print_tree_spec_node)

section \<open>Helper facts about the annotators\<close>

lemma comment_for_file_json_cases:
  "comment_for_file_json name =
     (if name = u ''main.py'' then tri # u '' CLI entry point''
      else if name = u ''pyproject.toml'' then tri # u '' For installability (recommended)''
      else [])"
  by (simp add: comment_for_file_json_def special_comments_def)

lemma comment_for_file_cases:
  "comment_for_file name =
     (if name = u ''main.py'' then tri # u '' '' @ tri # u '' CLI entry point''
      else if name = u ''pyproject.toml''
      then tri # u '' '' @ tri # u '' For installability (recommended)''
      else [])"
  by (simp add: comment_for_file_def special_comments_def)

section \<open>Evaluation on the example file systems\<close>

lemma walk_dir_json_eval:
  "walk_dir_json None = Inl FileNotFoundError"
  "walk_dir_json (Some File) = Inl NotADirectoryError"
  "walk_dir_json (Some Denied) = Inl PermissionError"
  "walk_dir_json (Some (Dir es)) =
     for_acc (visible_sorted (map fst es)) [] (\<lambda>entry tree.
       if isdir (join (Some (Dir es)) entry) then
         (case walk_dir_json (join (Some (Dir es)) entry) of
            Inl e \<Rightarrow> Inl e
          | Inr subtree \<Rightarrow>
              Inr (tree @ [Dict [(u ''type'', Str (u ''directory'')),
                                 (u ''name'', Str entry),
                                 (u ''children'', List subtree)]]))
       else
         Inr (tree @ [Dict [(u ''type'', Str (u ''file'')),
                            (u ''name'', Str entry),
                            (u ''comment'', Str (comment_for_file_json entry))]]))"
  by (simp_all add: walk_dir_json_Inl walk_dir_json_Inr)

lemma walk_dir_eval:
  "walk_dir g None pfx b = raise FileNotFoundError"
  "walk_dir g (Some File) pfx b = raise NotADirectoryError"
  "walk_dir g (Some Denied) pfx b = raise PermissionError"
  "walk_dir g (Some (Dir es)) pfx b =
     for_each (enumerate 0 (visible_sorted (map fst es))) (\<lambda>(index, entry).
       if isdir (join (Some (Dir es)) entry) then
         and_then
           (py_print (pfx @ (if is_last_index index (length (visible_sorted (map fst es)))
                             then last_indent g else indent g) @ entry @ u ''/''))
           (walk_dir g (join (Some (Dir es)) entry)
              (pfx @ (if is_last_index index (length (visible_sorted (map fst es)))
                      then final_spacer g else spacer g))
              (is_last_index index (length (visible_sorted (map fst es)))))
       else
         py_print (pfx @ (if is_last_index index (length (visible_sorted (map fst es)))
                          then last_indent g else indent g) @ entry @ u '' '' @ comment_for_file entry))"
  by (simp_all add: walk_dir_Inl walk_dir_Inr)


lemma example_host_at:
  "at example_host (u ''r'') = Some example_tree"
  "at example_host (u ''l'') = Some locked_tree"
  "at example_host (u ''f'') = Some File"
  "basename_abspath example_host p = p"
  by (simp_all add: example_host_def u_def)

lemma example_walk: "walk_dir_json (at example_host (u ''r'')) = Inr example_nodes"
  unfolding example_host_at
  by (simp add: example_nodes_def example_tree_def walk_dir_json_eval
      visible_sorted_def hidden_def startswith_def comment_for_file_json_cases u_def)

lemma locked_walk: "walk_dir_json (at example_host (u ''l'')) = Inl PermissionError"
  unfolding example_host_at
  by (simp add: locked_tree_def walk_dir_json_eval
      visible_sorted_def hidden_def startswith_def u_def)

lemma example_text:
  "generate_tree_map example_host (u ''r'') default_glyphs
     = ([u ''r/'',
         [tee, dash, dash] @ u '' a/'',
         bar # u ''   '' @ [corner, dash, dash] @ u '' main.py '' @ tri # u '' '' @ tri # u '' CLI entry point'',
         [corner, dash, dash] @ u '' b ''], None)"
  unfolding generate_tree_map_def example_host_at
  by (simp add: example_tree_def walk_dir_eval
      visible_sorted_def hidden_def startswith_def comment_for_file_cases is_last_index_def
      and_then_def py_print_def default_glyphs_def u_def)

lemma example_nodes_spec:
  "example_nodes = map spec_node [DirEntry (u ''a'') [FileEntry (u ''main.py'')], FileEntry (u ''b'')]"
  by (simp add: example_nodes_def spec_node.simps comment_for_file_json_cases u_def)

lemma example_json_stdout:
  "stdout (generate_tree_map_json example_host repr (u ''r'') None)
     = [u ''r/'',
        [tee, dash, dash] @ u '' a/'',
        bar # u ''   '' @ [corner, dash, dash] @ u '' main.py '' @ tri # u '' CLI entry point'',
        [corner, dash, dash] @ u '' b'']"
  unfolding gtmj_no_path [OF example_walk] example_host_at example_nodes_spec print_tree_spec_node
  by (simp add: spec_render.simps is_last_index_def json_suffix_def
      comment_for_file_json_cases default_glyphs_def u_def)




lemma gtmj_with_path:
  assumes "walk_dir_json (at h root_path) = Inr tree" and "path \<noteq> []"
  shows "generate_tree_map_json h repr root_path (Some path)
     = (case open_error h path of
          Some e \<Rightarrow>
            \<lparr> stdout = (basename_abspath h root_path @ u ''/'') # fst (print_tree repr (List tree) []),
              files = [], raised = Some e \<rparr>
        | None \<Rightarrow>
            (case dump_error h path of
               Some e \<Rightarrow>
                 \<lparr> stdout = (basename_abspath h root_path @ u ''/'')
                              # fst (print_tree repr (List tree) []),
                   files = [Open path (u ''w'') (u ''utf-8''), Close], raised = Some e \<rparr>
             | None \<Rightarrow>
                 \<lparr> stdout = (basename_abspath h root_path @ u ''/'')
                              # fst (print_tree repr (List tree) [])
                              @ [10 # check_mark # u '' Tree structure saved to '' @ path],
                   files = [Open path (u ''w'') (u ''utf-8''),
                            Dump (Dict [(u ''root'', Str (basename_abspath h root_path)),
                                        (u ''structure'', List tree)]) 4,
                            Close],
                   raised = None \<rparr>))"
  using assms walked_isdir [OF assms(1)]
    printed_tree [OF assms(1), of "basename_abspath h root_path @ u ''/''" repr]
    walked_tree [OF assms(1)]
  by (simp add: generate_tree_map_json_def Let_def print_tree_spec_node split: option.splits)

lemma gtmj_not_walked:
  assumes "isl (walk_dir_json (at h root_path))"
  shows "files (generate_tree_map_json h repr root_path out) = []"
  using assms by (auto simp: generate_tree_map_json_def split: sum.splits)

lemma gtmj_no_path_files: "files (generate_tree_map_json h repr root_path None) = []"
  by (simp add: generate_tree_map_json_def Let_def split: sum.splits option.splits)

lemma example_host_files:
  "open_error example_host (u ''o'') = None"
  "dump_error example_host (u ''o'') = None"
  "open_error example_host (u ''ro'') = Some PermissionError"
  "u ''o'' \<noteq> []" "u ''ro'' \<noteq> []"
  by (simp_all add: example_host_def u_def)

lemma example_wf: "wf_path (at example_host (u ''r''))"
  unfolding example_host_at by (simp add: wf_path_def example_tree_def u_def)


section \<open>The claims\<close>

text \<open>
  C1. The claim: the annotator returns the table's label for \<open>main.py\<close> and
  \<open>pyproject.toml\<close> and the empty string for every other name, identically in both
  entry operations.  The annotator of \<open>generate_tree_map_json\<close> does.  The annotator
  of \<open>generate_tree_map\<close> puts a second triangle and a space in front of the label,
  which already begins with one: for \<open>main.py\<close> it returns the label with the
  triangle doubled, and the two annotators disagree.
\<close>

theorem C1_text_annotator_doubles_glyph:
  "comment_for_file_json (u ''main.py'') = tri # u '' CLI entry point'' \<and>
   comment_for_file (u ''main.py'') = tri # u '' '' @ tri # u '' CLI entry point'' \<and>
   comment_for_file (u ''main.py'') \<noteq> comment_for_file_json (u ''main.py'')"
  by (simp add: comment_for_file_def comment_for_file_json_def special_comments_def u_def tri_def)

text \<open>
  Claim C2: a directory line ends with the entry name and \<open>/\<close>; a file line is the
  prefix, the branch glyph and the name, followed by a space and the annotation only
  when the annotation is not empty, in both operations.  The printing pass of
  \<open>generate_tree_map_json\<close> does so (\<open>print_tree_spec_node\<close> with \<open>json_suffix\<close>).
  \<open>generate_tree_map\<close> does not: on the directory \<open>r\<close>, whose file \<open>b\<close> has no
  annotation, it prints the line of \<open>b\<close> with a space after the name, where
  \<open>generate_tree_map_json\<close> prints the name alone.  Both outputs are given in full.
\<close>

theorem C2_text_operation_trailing_space:
  "generate_tree_map example_host (u ''r'') default_glyphs
     = ([u ''r/'',
         [tee, dash, dash] @ u '' a/'',
         bar # u ''   '' @ [corner, dash, dash] @ u '' main.py '' @ tri # u '' '' @ tri # u '' CLI entry point'',
         [corner, dash, dash] @ u '' b ''], None)
   \<and> stdout (generate_tree_map_json example_host plain_repr (u ''r'') None)
     = [u ''r/'',
        [tee, dash, dash] @ u '' a/'',
        bar # u ''   '' @ [corner, dash, dash] @ u '' main.py '' @ tri # u '' CLI entry point'',
        [corner, dash, dash] @ u '' b'']"
  using example_text example_json_stdout by simp




text \<open>
  Claim C4: entries whose name begins with \<open>.\<close> are excluded from traversal and output
  at every level, in both operations.  Removing every hidden entry from the file system,
  with all it contains, changes nothing of what either operation prints, raises or
  writes: so no hidden directory is ever listed.  And every node of the structure built,
  and every entry rendered by either operation, has a name that does not begin with
  \<open>.\<close>, at every level.
\<close>

theorem C4_hidden_entries_excluded:
  "generate_tree_map (pruned_host h) root_path g = generate_tree_map h root_path g
   \<and> generate_tree_map_json (pruned_host h) repr root_path output_json_path
       = generate_tree_map_json h repr root_path output_json_path
   \<and> (walk_dir_json (at h root_path) = Inr tree \<longrightarrow>
        (\<exists>es suffix_text suffix_json.
            tree = map spec_node es \<and> list_all visible_entry es
          \<and> fst (generate_tree_map h root_path g)
              = (basename_abspath h root_path @ u ''/'') # spec_render g suffix_text [] es
          \<and> stdout (generate_tree_map_json h repr root_path None)
              = (basename_abspath h root_path @ u ''/'')
                   # spec_render default_glyphs suffix_json [] es))"
proof (intro conjI impI)
  show "generate_tree_map (pruned_host h) root_path g = generate_tree_map h root_path g"
    by (rule generate_tree_map_prune)
  show "generate_tree_map_json (pruned_host h) repr root_path output_json_path
       = generate_tree_map_json h repr root_path output_json_path"
    by (rule generate_tree_map_json_prune)
next
  assume w: "walk_dir_json (at h root_path) = Inr tree"
  let ?es = "spec_scan (at h root_path)"
  have t: "tree = map spec_node ?es" using w by (rule walked_tree)
  have "fst (generate_tree_map h root_path g)
      = (basename_abspath h root_path @ u ''/'') # spec_render g text_suffix [] ?es"
    by (simp add: generate_tree_map_listable [OF walk_dir_json_Inr_listable [OF w]])
  moreover have "stdout (generate_tree_map_json h repr root_path None)
      = (basename_abspath h root_path @ u ''/'') # spec_render default_glyphs json_suffix [] ?es"
    by (simp add: gtmj_no_path [OF w] t print_tree_spec_node)
  ultimately show "\<exists>es suffix_text suffix_json.
            tree = map spec_node es \<and> list_all visible_entry es
          \<and> fst (generate_tree_map h root_path g)
              = (basename_abspath h root_path @ u ''/'') # spec_render g suffix_text [] es
          \<and> stdout (generate_tree_map_json h repr root_path None)
              = (basename_abspath h root_path @ u ''/'')
                   # spec_render default_glyphs suffix_json [] es"
    using t spec_scan_visible [of "at h root_path"] by blast
qed

theorem C4_witness:
  "generate_tree_map (pruned_host example_host) (u ''r'') default_glyphs
     = generate_tree_map example_host (u ''r'') default_glyphs
   \<and> generate_tree_map_json (pruned_host example_host) plain_repr (u ''r'') None
       = generate_tree_map_json example_host plain_repr (u ''r'') None
   \<and> (\<exists>es suffix_text suffix_json.
            example_nodes = map spec_node es \<and> list_all visible_entry es
          \<and> fst (generate_tree_map example_host (u ''r'') default_glyphs)
              = (basename_abspath example_host (u ''r'') @ u ''/'')
                   # spec_render default_glyphs suffix_text [] es
          \<and> stdout (generate_tree_map_json example_host plain_repr (u ''r'') None)
              = (basename_abspath example_host (u ''r'') @ u ''/'')
                   # spec_render default_glyphs suffix_json [] es)"
  using C4_hidden_entries_excluded
          [of example_host "u ''r''" default_glyphs plain_repr None example_nodes]
        example_walk
  by simp

text \<open>
  Claim C5: at every level the entries are in strict ascending order of their names, in
  the printed lines and in the children arrays, and the printed order is the order of
  the children.  In a file system where the names of a directory are distinct, the
  structure built is that of an entry sequence strictly ascending at every level, and
  both operations print the rendering of that same sequence, which visits the entries
  in the order of the sequence.
\<close>

theorem C5_entries_in_strict_ascending_order:
  assumes "wf_path (at h root_path)" and "walk_dir_json (at h root_path) = Inr tree"
  shows "\<exists>es suffix_text suffix_json.
           tree = map spec_node es
         \<and> sorted_wrt (<) (map entry_name es) \<and> list_all ordered_entry es
         \<and> fst (generate_tree_map h root_path g)
             = (basename_abspath h root_path @ u ''/'') # spec_render g suffix_text [] es
         \<and> stdout (generate_tree_map_json h repr root_path None)
             = (basename_abspath h root_path @ u ''/'')
                  # spec_render default_glyphs suffix_json [] es"
proof -
  let ?es = "spec_scan (at h root_path)"
  have t: "tree = map spec_node ?es" using assms(2) by (rule walked_tree)
  have "fst (generate_tree_map h root_path g)
      = (basename_abspath h root_path @ u ''/'') # spec_render g text_suffix [] ?es"
    by (simp add: generate_tree_map_listable [OF walk_dir_json_Inr_listable [OF assms(2)]])
  moreover have "stdout (generate_tree_map_json h repr root_path None)
      = (basename_abspath h root_path @ u ''/'') # spec_render default_glyphs json_suffix [] ?es"
    by (simp add: gtmj_no_path [OF assms(2)] t print_tree_spec_node)
  ultimately show ?thesis using t spec_scan_ordered [OF assms(1)] by blast
qed

theorem C5_witness:
  "\<exists>es suffix_text suffix_json.
           example_nodes = map spec_node es
         \<and> sorted_wrt (<) (map entry_name es) \<and> list_all ordered_entry es
         \<and> fst (generate_tree_map example_host (u ''r'') default_glyphs)
             = (basename_abspath example_host (u ''r'') @ u ''/'')
                  # spec_render default_glyphs suffix_text [] es
         \<and> stdout (generate_tree_map_json example_host plain_repr (u ''r'') None)
             = (basename_abspath example_host (u ''r'') @ u ''/'')
                  # spec_render default_glyphs suffix_json [] es"
  using C5_entries_in_strict_ascending_order [OF example_wf example_walk] .

text \<open>
  Claim C6: with an output path that can be opened and written, the file is opened for
  writing with encoding utf-8, and what is dumped with indentation 4 is the object with
  the two keys \<open>root\<close>, the base name of the root, and \<open>structure\<close>, the array of
  nodes; every node is one of \<open>spec_node\<close>: a directory node with the keys \<open>type\<close>,
  \<open>name\<close> and \<open>children\<close>, an array, or a file node with the keys \<open>type\<close>, \<open>name\<close>
  and \<open>comment\<close>, a string that is empty when the name has no annotation.
\<close>

theorem C6_json_document_shape:
  assumes "walk_dir_json (at h root_path) = Inr tree" and "path \<noteq> []"
    and "open_error h path = None" and "dump_error h path = None"
  shows "files (generate_tree_map_json h repr root_path (Some path))
           = [Open path (u ''w'') (u ''utf-8''),
              Dump (Dict [(u ''root'', Str (basename_abspath h root_path)),
                          (u ''structure'', List tree)]) 4,
              Close]
         \<and> (\<exists>es. tree = map spec_node es)"
  using assms walked_tree [OF assms(1)] by (auto simp: gtmj_with_path)

theorem C6_witness:
  "files (generate_tree_map_json example_host plain_repr (u ''r'') (Some (u ''o'')))
     = [Open (u ''o'') (u ''w'') (u ''utf-8''),
        Dump (Dict [(u ''root'', Str (basename_abspath example_host (u ''r''))),
                    (u ''structure'', List example_nodes)]) 4,
        Close]
   \<and> (\<exists>es. example_nodes = map spec_node es)"
  using C6_json_document_shape
          [OF example_walk example_host_files(4) example_host_files(1) example_host_files(2)] .

text \<open>
  Claim C7: when the root path is not a directory, \<open>generate_tree_map_json\<close> raises
  \<open>ValueError\<close> before any output: nothing is printed and no file is opened.
\<close>

theorem C7_not_a_directory_raises_before_output:
  "\<not> isdir (at h root_path) \<Longrightarrow>
   generate_tree_map_json h repr root_path output_json_path
     = \<lparr> stdout = [], files = [],
         raised = Some (ValueError (u [CHR 0x27] @ root_path @ u [CHR 0x27]
                                      @ u '' is not a valid directory.'')) \<rparr>"
  by (simp add: generate_tree_map_json_def)

theorem C7_witness:
  "generate_tree_map_json example_host plain_repr (u ''f'') (Some (u ''o''))
     = \<lparr> stdout = [], files = [],
         raised = Some (ValueError (u [CHR 0x27] @ u ''f'' @ u [CHR 0x27]
                                      @ u '' is not a valid directory.'')) \<rparr>"
proof -
  have "\<not> isdir (at example_host (u ''f''))" by (simp add: example_host_at)
  then show ?thesis by (rule C7_not_a_directory_raises_before_output)
qed

text \<open>
  Claim C8: a failure to open or to write the output file occurs only after the structure
  has been built and the whole tree printed.  When the output file cannot be opened, or
  is opened and cannot be written, the exception raised is that failure, the structure
  has been built and is that of an entry sequence, the printing pass has ended normally,
  and standard output holds the root line followed by the rendering of that whole entry
  sequence, one line for each entry at every level: every line of the tree, exactly what
  the call without an output path prints.  And when the walk fails, no file is opened at
  all.
\<close>

theorem C8_write_failure_after_printing:
  "(walk_dir_json (at h root_path) = Inr tree \<longrightarrow> path \<noteq> [] \<longrightarrow>
      (open_error h path = Some e \<or> (open_error h path = None \<and> dump_error h path = Some e)) \<longrightarrow>
        (\<exists>es. tree = map spec_node es
           \<and> stdout (generate_tree_map_json h repr root_path (Some path))
               = (basename_abspath h root_path @ u ''/'')
                    # spec_render default_glyphs json_suffix [] es)
        \<and> stdout (generate_tree_map_json h repr root_path (Some path))
            = (basename_abspath h root_path @ u ''/'') # fst (print_tree repr (List tree) [])
        \<and> snd (print_tree repr (List tree) []) = None
        \<and> stdout (generate_tree_map_json h repr root_path (Some path))
            = stdout (generate_tree_map_json h repr root_path None)
        \<and> raised (generate_tree_map_json h repr root_path (Some path)) = Some e)
   \<and> (isl (walk_dir_json (at h root_path)) \<longrightarrow>
        files (generate_tree_map_json h repr root_path output_json_path) = [])"
proof (intro conjI impI)
  assume w: "walk_dir_json (at h root_path) = Inr tree" and p: "path \<noteq> []"
    and f: "open_error h path = Some e \<or> (open_error h path = None \<and> dump_error h path = Some e)"
  have t: "tree = map spec_node (spec_scan (at h root_path))" using w by (rule walked_tree)
  from f have s: "stdout (generate_tree_map_json h repr root_path (Some path))
      = (basename_abspath h root_path @ u ''/'') # fst (print_tree repr (List tree) [])"
    by (auto simp: gtmj_with_path [OF w p])
  show "stdout (generate_tree_map_json h repr root_path (Some path))
      = (basename_abspath h root_path @ u ''/'') # fst (print_tree repr (List tree) [])"
    by (rule s)
  have "stdout (generate_tree_map_json h repr root_path (Some path))
      = (basename_abspath h root_path @ u ''/'')
           # spec_render default_glyphs json_suffix [] (spec_scan (at h root_path))"
    unfolding s by (simp add: t print_tree_spec_node)
  with t show "\<exists>es. tree = map spec_node es
           \<and> stdout (generate_tree_map_json h repr root_path (Some path))
               = (basename_abspath h root_path @ u ''/'')
                    # spec_render default_glyphs json_suffix [] es"
    by blast
  from f show "stdout (generate_tree_map_json h repr root_path (Some path))
      = stdout (generate_tree_map_json h repr root_path None)"
    by (auto simp: gtmj_with_path [OF w p] gtmj_no_path [OF w])
  from f show "raised (generate_tree_map_json h repr root_path (Some path)) = Some e"
    by (auto simp: gtmj_with_path [OF w p])
  show "snd (print_tree repr (List tree) []) = None"
    by (simp add: t print_tree_spec_node)
next
  assume "isl (walk_dir_json (at h root_path))"
  then show "files (generate_tree_map_json h repr root_path output_json_path) = []"
    by (rule gtmj_not_walked)
qed

theorem C8_witness:
  "(\<exists>es. example_nodes = map spec_node es
       \<and> stdout (generate_tree_map_json example_host plain_repr (u ''r'') (Some (u ''ro'')))
           = (basename_abspath example_host (u ''r'') @ u ''/'')
                # spec_render default_glyphs json_suffix [] es)
   \<and> stdout (generate_tree_map_json example_host plain_repr (u ''r'') (Some (u ''ro'')))
       = [u ''r/'',
          [tee, dash, dash] @ u '' a/'',
          bar # u ''   '' @ [corner, dash, dash] @ u '' main.py '' @ tri # u '' CLI entry point'',
          [corner, dash, dash] @ u '' b'']
   \<and> snd (print_tree plain_repr (List example_nodes) []) = None
   \<and> stdout (generate_tree_map_json example_host plain_repr (u ''r'') (Some (u ''ro'')))
       = stdout (generate_tree_map_json example_host plain_repr (u ''r'') None)
   \<and> raised (generate_tree_map_json example_host plain_repr (u ''r'') (Some (u ''ro'')))
       = Some PermissionError
   \<and> files (generate_tree_map_json example_host plain_repr (u ''l'') (Some (u ''o''))) = []"
proof -
  have w: "walk_dir_json (at example_host (u ''r'')) = Inr example_nodes"
    by (rule example_walk)
  have o: "open_error example_host (u ''ro'') = Some PermissionError" "u ''ro'' \<noteq> []"
    by (rule example_host_files)+
  have l: "isl (walk_dir_json (at example_host (u ''l'')))"
    by (simp add: locked_walk)
  note r = C8_write_failure_after_printing
             [of example_host "u ''r''" example_nodes "u ''ro''" PermissionError plain_repr None]
  note k = C8_write_failure_after_printing
             [of example_host "u ''l''" example_nodes "u ''ro''" PermissionError plain_repr
                 "Some (u ''o'')"]
  from r w o have a:
    "(\<exists>es. example_nodes = map spec_node es
       \<and> stdout (generate_tree_map_json example_host plain_repr (u ''r'') (Some (u ''ro'')))
           = (basename_abspath example_host (u ''r'') @ u ''/'')
                # spec_render default_glyphs json_suffix [] es)
     \<and> snd (print_tree plain_repr (List example_nodes) []) = None
     \<and> stdout (generate_tree_map_json example_host plain_repr (u ''r'') (Some (u ''ro'')))
         = stdout (generate_tree_map_json example_host plain_repr (u ''r'') None)
     \<and> raised (generate_tree_map_json example_host plain_repr (u ''r'') (Some (u ''ro'')))
         = Some PermissionError"
    by blast
  then have "stdout (generate_tree_map_json example_host plain_repr (u ''r'') (Some (u ''ro'')))
       = [u ''r/'',
          [tee, dash, dash] @ u '' a/'',
          bar # u ''   '' @ [corner, dash, dash] @ u '' main.py '' @ tri # u '' CLI entry point'',
          [corner, dash, dash] @ u '' b'']"
    using example_json_stdout [of plain_repr] by simp
  moreover from k l have
    "files (generate_tree_map_json example_host plain_repr (u ''l'') (Some (u ''o''))) = []"
    by blast
  ultimately show ?thesis using a by blast
qed

text \<open>
  Claim C9: \<open>generate_tree_map\<close> does not check that the root path is a directory.  On a
  path that is not one it prints the root line and then raises the error of the
  directory listing, where \<open>generate_tree_map_json\<close> prints nothing and raises
  \<open>ValueError\<close>.
\<close>

theorem C9_text_operation_has_no_directory_check:
  "\<not> isdir (at h root_path) \<Longrightarrow>
   generate_tree_map h root_path g
     = ([basename_abspath h root_path @ u ''/''],
        Some (if at h root_path = None then FileNotFoundError else NotADirectoryError))
   \<and> stdout (generate_tree_map_json h repr root_path output_json_path) = []
   \<and> raised (generate_tree_map_json h repr root_path output_json_path)
       = Some (ValueError (u [CHR 0x27] @ root_path @ u [CHR 0x27]
                             @ u '' is not a valid directory.''))"
  by (simp add: generate_tree_map_def generate_tree_map_json_def walk_dir_Inl
      listdir_not_dir raise_def and_then_def py_print_def)

theorem C9_witness:
  "generate_tree_map example_host (u ''f'') default_glyphs
     = ([basename_abspath example_host (u ''f'') @ u ''/''], Some NotADirectoryError)
   \<and> stdout (generate_tree_map_json example_host plain_repr (u ''f'') None) = []
   \<and> raised (generate_tree_map_json example_host plain_repr (u ''f'') None)
       = Some (ValueError (u [CHR 0x27] @ u ''f'' @ u [CHR 0x27]
                             @ u '' is not a valid directory.''))"
proof -
  have "\<not> isdir (at example_host (u ''f''))" by (simp add: example_host_at)
  from C9_text_operation_has_no_directory_check [OF this, of default_glyphs plain_repr None]
  show ?thesis by (simp add: example_host_at)
qed

text \<open>
  Claim C10: with an output path and a write that succeeds, standard output is the tree
  followed by one more line, a line feed, the check mark and
  \<open>Tree structure saved to\<close> with the path, and nothing is raised.  Without an output
  path no file is opened or written, and standard output is exactly the tree.
\<close>

theorem C10_confirmation_line:
  "(walk_dir_json (at h root_path) = Inr tree \<longrightarrow> path \<noteq> [] \<longrightarrow>
      open_error h path = None \<longrightarrow> dump_error h path = None \<longrightarrow>
        stdout (generate_tree_map_json h repr root_path (Some path))
          = (basename_abspath h root_path @ u ''/'') # fst (print_tree repr (List tree) [])
            @ [10 # check_mark # u '' Tree structure saved to '' @ path]
        \<and> raised (generate_tree_map_json h repr root_path (Some path)) = None)
   \<and> files (generate_tree_map_json h repr root_path None) = []
   \<and> (walk_dir_json (at h root_path) = Inr tree \<longrightarrow>
        stdout (generate_tree_map_json h repr root_path None)
          = (basename_abspath h root_path @ u ''/'') # fst (print_tree repr (List tree) []))"
  by (auto simp: gtmj_with_path gtmj_no_path gtmj_no_path_files)

theorem C10_witness:
  "stdout (generate_tree_map_json example_host plain_repr (u ''r'') (Some (u ''o'')))
     = (basename_abspath example_host (u ''r'') @ u ''/'')
         # fst (print_tree plain_repr (List example_nodes) [])
         @ [10 # check_mark # u '' Tree structure saved to '' @ u ''o'']
   \<and> raised (generate_tree_map_json example_host plain_repr (u ''r'') (Some (u ''o''))) = None
   \<and> files (generate_tree_map_json example_host plain_repr (u ''r'') None) = []
   \<and> stdout (generate_tree_map_json example_host plain_repr (u ''r'') None)
       = (basename_abspath example_host (u ''r'') @ u ''/'')
           # fst (print_tree plain_repr (List example_nodes) [])"
  using C10_confirmation_line [of example_host "u ''r''" example_nodes "u ''o''" plain_repr]
        example_walk example_host_files
  by simp

end
